theory Spec2Isabelle
  imports Complex_Main "HOL-Library.Sublist"
begin

section \<open>The terminal GUI controller of gui.py\<close>

text \<open>
  A shallow embedding of \<^verbatim>\<open>src/gui.py\<close>: the class \<^verbatim>\<open>GUI\<close> with its drawing
  interface, the bodies of the two loops \<^verbatim>\<open>render_thread\<close> and \<^verbatim>\<open>input_thread\<close>,
  and \<^verbatim>\<open>GUI.start\<close>. Python integers are \<open>int\<close>, Python strings are \<open>string\<close>,
  the dictionary \<^verbatim>\<open>pixels\<close> is a map. Every \<^verbatim>\<open>raise\<close> is a value: \<open>Inl e\<close> for a
  function that only computes, and \<open>(Some e, g)\<close>, with the object \<open>g\<close> as it is at that
  moment, for a method that changes the object.
\<close>

subsection \<open>Constants\<close>

definition LEFT :: int where "LEFT = 0"
definition UP_LEFT :: int where "UP_LEFT = 1"
definition UP :: int where "UP = 2"
definition UP_RIGHT :: int where "UP_RIGHT = 3"
definition RIGHT :: int where "RIGHT = 4"
definition DOWN_RIGHT :: int where "DOWN_RIGHT = 5"
definition DOWN :: int where "DOWN = 6"
definition DOWN_LEFT :: int where "DOWN_LEFT = 7"

definition TOP_LEFT :: int where "TOP_LEFT = 8"
definition TOP_CENTER :: int where "TOP_CENTER = 9"
definition TOP_RIGHT :: int where "TOP_RIGHT = 10"
definition CENTER_LEFT :: int where "CENTER_LEFT = 11"
definition CENTER :: int where "CENTER = 12"
definition CENTER_RIGHT :: int where "CENTER_RIGHT = 13"
definition BOTTOM_LEFT :: int where "BOTTOM_LEFT = 14"
definition BOTTOM_CENTER :: int where "BOTTOM_CENTER = 15"
definition BOTTOM_RIGHT :: int where "BOTTOM_RIGHT = 16"

text \<open>\<^verbatim>\<open>curses.A_NORMAL\<close>, the attribute value of the curses library for normal display.\<close>

definition A_NORMAL :: int where "A_NORMAL = 0"

text \<open>A pixel is a pair of the displayed string and its curses attribute.\<close>

type_synonym pixel = "string \<times> int"

definition BLANK_PIXEL :: pixel where "BLANK_PIXEL = ('' '', A_NORMAL)"

subsection \<open>Exceptions\<close>

text \<open>
  An exception is its class and the text \<^verbatim>\<open>str(e)\<close> gives. The classes the source names or
  can raise itself are constructors of their own; \<open>UserException n\<close> is any other class, with
  the name \<^verbatim>\<open>type(e)\<close> prints. Classes derived from \<^verbatim>\<open>KeyboardInterrupt\<close> or \<^verbatim>\<open>EOFError\<close>
  are not told apart from their base class.
\<close>

datatype exn_class = KeyboardInterrupt | EOFError | ValueError | AttributeError
  | UserException string

datatype exn = Exn (exn_class: exn_class) (exn_str: string)

fun class_name :: "exn_class \<Rightarrow> string" where
  "class_name KeyboardInterrupt = ''KeyboardInterrupt''"
| "class_name EOFError = ''EOFError''"
| "class_name ValueError = ''ValueError''"
| "class_name AttributeError = ''AttributeError''"
| "class_name (UserException n) = n"

definition quote :: string where "quote = [CHR 0x27]"

text \<open>\<^verbatim>\<open>str(type(e))\<close>: the class name between \<^verbatim>\<open><class '\<close> and \<^verbatim>\<open>'>\<close>.\<close>

definition type_repr :: "exn \<Rightarrow> string" where
  "type_repr e = ''<class '' @ quote @ class_name (exn_class e) @ quote @ ''>''"

text \<open>The test of \<^verbatim>\<open>except (KeyboardInterrupt, EOFError)\<close>.\<close>

definition is_interrupt :: "exn \<Rightarrow> bool" where
  "is_interrupt e = (exn_class e = KeyboardInterrupt \<or> exn_class e = EOFError)"

text \<open>\<^verbatim>\<open>str(n)\<close> for a Python integer.\<close>

fun str_nat :: "nat \<Rightarrow> string" where
  "str_nat n = (if n < 10 then [''0123456789'' ! n]
                else str_nat (n div 10) @ [''0123456789'' ! (n mod 10)])"

definition str_int :: "int \<Rightarrow> string" where
  "str_int i = (if i < 0 then ''-'' @ str_nat (nat (- i)) else str_nat (nat i))"

subsection \<open>The controller object\<close>

text \<open>
  The attributes of a \<^verbatim>\<open>GUI\<close> object that the code reads and writes. The three screen
  attributes are created by the first render tick only, so they are optional: reading a
  missing attribute raises \<^verbatim>\<open>AttributeError\<close>. Two more fields hold what the object
  has sent to the outside: \<open>log_file\<close>, the text it has written to \<^verbatim>\<open>~/.gui_log\<close>, and
  \<open>terminal\<close>, the \<^verbatim>\<open>addstr(y, x, character, attr)\<close> calls it has made on the curses
  screen, oldest first. An application derives its own class from \<^verbatim>\<open>GUI\<close>; the
  attributes it adds are the extension \<open>'a\<close> of the record scheme \<open>'a gui_scheme\<close>.
\<close>

type_synonym addstr_call = "int \<times> int \<times> pixel"

record gui =
  running :: bool
  pixels :: "(int \<times> int) \<rightharpoonup> pixel"
  screen_size :: "(int \<times> int) option"
  screen_height :: "int option"
  screen_width :: "int option"
  log_file :: string
  terminal :: "addstr_call list"

text \<open>\<^verbatim>\<open>GUI.__init__\<close>, for an object whose own attributes are \<open>m\<close>.\<close>

definition init :: "'a \<Rightarrow> 'a gui_scheme" where
  "init m = \<lparr>running = True, pixels = Map.empty, screen_size = None, screen_height = None,
             screen_width = None, log_file = [], terminal = [], \<dots> = m\<rparr>"

text \<open>\<^verbatim>\<open>GUI.__bool__\<close>, the test of \<^verbatim>\<open>while gui:\<close>.\<close>

definition bool_gui :: "'a gui_scheme \<Rightarrow> bool" where
  "bool_gui g = running g"

text \<open>
  Reading a screen attribute. The message of the \<^verbatim>\<open>AttributeError\<close> names the class
  \<^verbatim>\<open>GUI\<close>; for an object of a derived class Python puts the name of that class there.
\<close>

definition attribute_error :: "string \<Rightarrow> exn" where
  "attribute_error a =
     Exn AttributeError (quote @ ''GUI'' @ quote @ '' object has no attribute '' @ quote @ a @ quote)"

definition get_screen_height :: "'a gui_scheme \<Rightarrow> exn + int" where
  "get_screen_height g =
     (case screen_height g of None \<Rightarrow> Inl (attribute_error ''screen_height'') | Some h \<Rightarrow> Inr h)"

definition get_screen_width :: "'a gui_scheme \<Rightarrow> exn + int" where
  "get_screen_width g =
     (case screen_width g of None \<Rightarrow> Inl (attribute_error ''screen_width'') | Some w \<Rightarrow> Inr w)"

text \<open>\<^verbatim>\<open>GUI.stop\<close>\<close>

definition stop :: "'a gui_scheme \<Rightarrow> 'a gui_scheme" where
  "stop g = g\<lparr>running := False\<rparr>"

text \<open>
  \<^verbatim>\<open>GUI.log\<close> with the default \<^verbatim>\<open>sep\<close> and \<^verbatim>\<open>end\<close>: appends the time stamp, a
  space, the arguments joined by a space, and a newline. The time stamp
  \<^verbatim>\<open>str(datetime.now())\<close> is a reading of the clock and is passed in as \<open>now\<close>.
\<close>

fun join :: "string \<Rightarrow> string list \<Rightarrow> string" where
  "join sep [] = []"
| "join sep [a] = a"
| "join sep (a # b # bs) = a @ sep @ join sep (b # bs)"

definition gui_log :: "'a gui_scheme \<Rightarrow> string \<Rightarrow> string list \<Rightarrow> 'a gui_scheme" where
  "gui_log g now args =
     g\<lparr>log_file := log_file g @ now @ '' '' @ join '' '' args @ [CHR 0x0A]\<rparr>"

subsection \<open>Drawing\<close>

text \<open>
  A method that changes the object returns the exception it raised, if any, and the object as
  it is when the method returns or raises.
\<close>

type_synonym 'a outcome = "exn option \<times> 'a gui_scheme"

text \<open>
  \<^verbatim>\<open>GUI.draw\<close>. The chained comparisons are evaluated from left to right and stop at
  the first one that is false, so an attribute is only read when the comparison before it
  holds.
\<close>

definition draw :: "'a gui_scheme \<Rightarrow> int \<times> int \<Rightarrow> string \<Rightarrow> int \<Rightarrow> 'a outcome" where
  "draw g coord character attr =
     (case coord of (x, y) \<Rightarrow>
        if \<not> 0 \<le> x then (None, g)
        else (case get_screen_width g of Inl e \<Rightarrow> (Some e, g) | Inr w \<Rightarrow>
        if \<not> x < w then (None, g)
        else if \<not> 0 \<le> y then (None, g)
        else (case get_screen_height g of Inl e \<Rightarrow> (Some e, g) | Inr h \<Rightarrow>
        if \<not> y < h then (None, g)
        else let curses_y = h - (y + 1);
                 curses_coord = (curses_y, x)
             in (None, g\<lparr>pixels := (pixels g)(curses_coord \<mapsto> (character, attr))\<rparr>))))"

text \<open>\<^verbatim>\<open>GUI.get_directional_reference\<close>\<close>

definition get_directional_reference :: "int \<Rightarrow> exn + int \<times> int" where
  "get_directional_reference direction =
     (if direction = LEFT then Inr (-1, 0)
      else if direction = UP_LEFT then Inr (-1, 1)
      else if direction = UP then Inr (0, 1)
      else if direction = UP_RIGHT then Inr (1, 1)
      else if direction = RIGHT then Inr (1, 0)
      else if direction = DOWN_RIGHT then Inr (1, -1)
      else if direction = DOWN then Inr (0, -1)
      else if direction = DOWN_LEFT then Inr (-1, -1)
      else Inl (Exn ValueError (''Unknown direction '' @ quote @ str_int direction @ quote)))"

text \<open>
  \<^verbatim>\<open>GUI.get_origin_reference\<close>. \<^verbatim>\<open>n >> 1\<close> is \<open>drop_bit 1 n\<close>. The components of
  a tuple are evaluated from left to right, the width before the height.
\<close>

definition pair_of :: "exn + int \<Rightarrow> exn + int \<Rightarrow> exn + int \<times> int" where
  "pair_of a b =
     (case a of Inl e \<Rightarrow> Inl e | Inr x \<Rightarrow> (case b of Inl e \<Rightarrow> Inl e | Inr y \<Rightarrow> Inr (x, y)))"

definition width_half :: "'a gui_scheme \<Rightarrow> exn + int" where
  "width_half g = (case get_screen_width g of Inl e \<Rightarrow> Inl e | Inr w \<Rightarrow> Inr (drop_bit 1 w))"

definition width_last :: "'a gui_scheme \<Rightarrow> exn + int" where
  "width_last g = (case get_screen_width g of Inl e \<Rightarrow> Inl e | Inr w \<Rightarrow> Inr (w - 1))"

definition height_half :: "'a gui_scheme \<Rightarrow> exn + int" where
  "height_half g = (case get_screen_height g of Inl e \<Rightarrow> Inl e | Inr h \<Rightarrow> Inr (drop_bit 1 h))"

definition height_last :: "'a gui_scheme \<Rightarrow> exn + int" where
  "height_last g = (case get_screen_height g of Inl e \<Rightarrow> Inl e | Inr h \<Rightarrow> Inr (h - 1))"

definition get_origin_reference :: "'a gui_scheme \<Rightarrow> int \<Rightarrow> exn + int \<times> int" where
  "get_origin_reference g origin =
     (if origin = TOP_LEFT then pair_of (Inr 0) (height_last g)
      else if origin = TOP_CENTER then pair_of (width_half g) (height_last g)
      else if origin = TOP_RIGHT then pair_of (width_last g) (height_last g)
      else if origin = CENTER_LEFT then pair_of (Inr 0) (height_half g)
      else if origin = CENTER then pair_of (width_half g) (height_half g)
      else if origin = CENTER_RIGHT then pair_of (width_last g) (height_half g)
      else if origin = BOTTOM_LEFT then pair_of (Inr 0) (Inr 0)
      else if origin = BOTTOM_CENTER then pair_of (width_half g) (Inr 0)
      else if origin = BOTTOM_RIGHT then pair_of (width_last g) (Inr 0)
      else Inl (Exn ValueError (''Unknown origin '' @ quote @ str_int origin @ quote)))"

text \<open>
  A \<^verbatim>\<open>for\<close> loop over a list whose body may raise: the first exception ends the loop,
  with the object as the iterations so far have left it.
\<close>

fun for_each :: "('b \<Rightarrow> 'a gui_scheme \<Rightarrow> 'a outcome) \<Rightarrow> 'b list \<Rightarrow> 'a gui_scheme \<Rightarrow> 'a outcome"
  where
  "for_each body [] g = (None, g)"
| "for_each body (a # as) g =
     (case body a g of (Some e, g') \<Rightarrow> (Some e, g') | (None, g') \<Rightarrow> for_each body as g')"

text \<open>
  \<^verbatim>\<open>GUI.draw_string\<close>. Each element of the string is passed to \<^verbatim>\<open>draw\<close> as a string of
  length one.
\<close>

definition draw_string ::
  "'a gui_scheme \<Rightarrow> int \<times> int \<Rightarrow> string \<Rightarrow> int \<Rightarrow> int \<Rightarrow> int \<Rightarrow> 'a outcome" where
  "draw_string g coord string attr direction origin =
     (case coord of (x, y) \<Rightarrow>
      (case get_origin_reference g origin of
         Inl e \<Rightarrow> (Some e, g)
       | Inr (origin_x, origin_y) \<Rightarrow>
      (case get_directional_reference direction of
         Inl e \<Rightarrow> (Some e, g)
       | Inr (directional_x, directional_y) \<Rightarrow>
          for_each
            (\<lambda>(i, character) g'.
               draw g'
                 (origin_x + (x + directional_x * int i), origin_y + (y + directional_y * int i))
                 [character] attr)
            (enumerate 0 string) g)))"

subsection \<open>Flushing the pixel buffer\<close>

text \<open>
  The output loop of \<^verbatim>\<open>render_thread\<close>: for every row \<open>y\<close> of \<^verbatim>\<open>range(screen_height)\<close> and
  every column \<open>x\<close> of \<^verbatim>\<open>range(screen_width)\<close>, in this order, one \<^verbatim>\<open>addstr\<close> call with the
  pixel stored under \<open>(y, x)\<close>, or the blank pixel. An exception of the call itself is
  swallowed by the source, so the flush is the list of calls made. The width is read once
  a first row exists.
\<close>

definition flush_cells :: "int \<Rightarrow> int \<Rightarrow> ((int \<times> int) \<rightharpoonup> pixel) \<Rightarrow> addstr_call list" where
  "flush_cells h w px =
     concat (map (\<lambda>y. map (\<lambda>x. (y, x, case px (y, x) of None \<Rightarrow> BLANK_PIXEL | Some p \<Rightarrow> p))
                          [0..w - 1])
                 [0..h - 1])"

definition flush :: "'a gui_scheme \<Rightarrow> exn + addstr_call list" where
  "flush g =
     (case get_screen_height g of Inl e \<Rightarrow> Inl e | Inr h \<Rightarrow>
        if h \<le> 0 then Inr []
        else (case get_screen_width g of Inl e \<Rightarrow> Inl e | Inr w \<Rightarrow>
          Inr (flush_cells h w (pixels g))))"

text \<open>The pixels a list of \<^verbatim>\<open>addstr\<close> calls writes at one device cell, in the order written.\<close>

definition emitted_at :: "addstr_call list \<Rightarrow> int \<times> int \<Rightarrow> pixel list" where
  "emitted_at calls cell =
     map (\<lambda>call. snd (snd call)) (filter (\<lambda>call. (fst call, fst (snd call)) = cell) calls)"

subsection \<open>Hooks\<close>

text \<open>
  The five methods an application overrides. A hook runs on the object and may raise. The
  defaults of the source do nothing.
\<close>

type_synonym 'a hook = "'a gui_scheme \<Rightarrow> 'a outcome"

record 'a hooks =
  setup_hook :: "'a hook"
  pre_render :: "'a hook"
  render :: "'a hook"
  post_render :: "'a hook"
  keypress :: "int \<Rightarrow> 'a hook"

definition pass :: "'a hook" where
  "pass g = (None, g)"

definition default_hooks :: "'a hooks" where
  "default_hooks = \<lparr>setup_hook = pass, pre_render = pass, render = pass, post_render = pass,
                     keypress = (\<lambda>key. pass)\<rparr>"

text \<open>
  Hooks that only call the public methods of the controller: a hook body is a list of calls,
  run in order until one raises. \<open>Log\<close> carries the clock reading of its call.
\<close>

datatype action =
    Draw "int \<times> int" string int
  | Draw_string "int \<times> int" string int int int
  | Get_directional_reference int
  | Get_origin_reference int
  | Stop
  | Log string "string list"
  | Raise exn

fun perform_action :: "action \<Rightarrow> 'a hook" where
  "perform_action (Draw coord character attr) g = draw g coord character attr"
| "perform_action (Draw_string coord string attr direction origin) g =
     draw_string g coord string attr direction origin"
| "perform_action (Get_directional_reference direction) g =
     (case get_directional_reference direction of Inl e \<Rightarrow> (Some e, g) | Inr v \<Rightarrow> (None, g))"
| "perform_action (Get_origin_reference origin) g =
     (case get_origin_reference g origin of Inl e \<Rightarrow> (Some e, g) | Inr v \<Rightarrow> (None, g))"
| "perform_action Stop g = (None, stop g)"
| "perform_action (Log now args) g = (None, gui_log g now args)"
| "perform_action (Raise e) g = (Some e, g)"

definition perform :: "action list \<Rightarrow> 'a hook" where
  "perform actions = for_each perform_action actions"

definition api_hooks ::
  "action list \<Rightarrow> action list \<Rightarrow> action list \<Rightarrow> action list \<Rightarrow> (int \<Rightarrow> action list) \<Rightarrow> 'a hooks"
  where
  "api_hooks su pre re post kp =
     \<lparr>setup_hook = perform su, pre_render = perform pre, render = perform re,
      post_render = perform post, keypress = (\<lambda>key. perform (kp key))\<rparr>"

subsection \<open>The render loop\<close>

text \<open>Sequencing inside a \<^verbatim>\<open>try\<close> block: the next statement runs if nothing was raised.\<close>

definition and_then :: "'a outcome \<Rightarrow> 'a hook \<Rightarrow> 'a outcome" where
  "and_then r f = (case r of (Some e, g) \<Rightarrow> (Some e, g) | (None, g) \<Rightarrow> f g)"

definition output_pixels :: "'a hook" where
  "output_pixels g =
     (case flush g of Inl e \<Rightarrow> (Some e, g)
      | Inr calls \<Rightarrow> (None, g\<lparr>terminal := terminal g @ calls\<rparr>))"

definition zero_pixels :: "'a hook" where
  "zero_pixels g = (None, g\<lparr>pixels := Map.empty\<rparr>)"

text \<open>
  The first three statements of the \<^verbatim>\<open>try\<close> block of \<^verbatim>\<open>render_thread\<close>: the result
  \<open>maxyx\<close> of \<^verbatim>\<open>getmaxyx()\<close> is stored, then its two components.
\<close>

definition update_window_size :: "int \<times> int \<Rightarrow> 'a gui_scheme \<Rightarrow> 'a gui_scheme" where
  "update_window_size maxyx g =
     g\<lparr>screen_size := Some maxyx, screen_height := Some (fst maxyx),
       screen_width := Some (snd maxyx)\<rparr>"

text \<open>The hooks of one tick, in the order of the source.\<close>

definition render_hooks :: "'a hooks \<Rightarrow> 'a hook" where
  "render_hooks hs g = and_then (and_then (pre_render hs g) (render hs)) (post_render hs)"

text \<open>The \<^verbatim>\<open>try\<close> block of \<^verbatim>\<open>render_thread\<close>.\<close>

definition render_try :: "'a hooks \<Rightarrow> int \<times> int \<Rightarrow> 'a hook" where
  "render_try hs maxyx g =
     and_then (and_then (render_hooks hs (update_window_size maxyx g)) output_pixels) zero_pixels"

definition render_except :: "exn \<Rightarrow> string \<Rightarrow> 'a gui_scheme \<Rightarrow> 'a gui_scheme" where
  "render_except e now g =
     gui_log (stop g) now [''Render thread exception, '' @ type_repr e @ '': '' @ exn_str e]"

text \<open>
  The body of the \<^verbatim>\<open>while\<close> loop of \<^verbatim>\<open>render_thread\<close>. What an iteration takes from
  outside is the screen size \<^verbatim>\<open>getmaxyx()\<close> returns and the clock reading a log line
  would carry. The handler catches \<^verbatim>\<open>BaseException\<close>, so nothing leaves the body.
\<close>

definition render_body :: "'a hooks \<Rightarrow> (int \<times> int) \<times> string \<Rightarrow> 'a gui_scheme \<Rightarrow> 'a gui_scheme"
  where
  "render_body hs env g =
     (case render_try hs (fst env) g of
        (None, g') \<Rightarrow> g'
      | (Some e, g') \<Rightarrow> render_except e (snd env) g')"

text \<open>
  \<^verbatim>\<open>render_thread\<close>: the loop runs while the object is true. The list holds what each
  iteration takes from outside; \<open>None\<close> says that the loop is still running when the list
  is used up.
\<close>

fun render_thread ::
  "'a hooks \<Rightarrow> ((int \<times> int) \<times> string) list \<Rightarrow> 'a gui_scheme \<Rightarrow> 'a gui_scheme option" where
  "render_thread hs [] g = (if bool_gui g then None else Some g)"
| "render_thread hs (env # envs) g =
     (if bool_gui g then render_thread hs envs (render_body hs env g) else Some g)"

subsection \<open>The input loop\<close>

definition input_except :: "exn \<Rightarrow> string \<Rightarrow> 'a gui_scheme \<Rightarrow> 'a gui_scheme" where
  "input_except e now g =
     (if is_interrupt e
      then gui_log (stop g) now [''Input thread received Keyboard Interrupt / EOF'']
      else gui_log (stop g) now
             [''Input thread exception, '' @ type_repr e @ '': '' @ exn_str e])"

text \<open>
  The body of the \<^verbatim>\<open>while\<close> loop of \<^verbatim>\<open>input_thread\<close>. \<^verbatim>\<open>getch()\<close> returns a key, -1
  when none came in time, or raises.
\<close>

definition input_body :: "'a hooks \<Rightarrow> (exn + int) \<times> string \<Rightarrow> 'a gui_scheme \<Rightarrow> 'a gui_scheme"
  where
  "input_body hs env g =
     (case fst env of
        Inl e \<Rightarrow> input_except e (snd env) g
      | Inr key \<Rightarrow>
          if key = -1 then g
          else (case keypress hs key g of
                  (None, g') \<Rightarrow> g'
                | (Some e, g') \<Rightarrow> input_except e (snd env) g'))"

fun input_thread ::
  "'a hooks \<Rightarrow> ((exn + int) \<times> string) list \<Rightarrow> 'a gui_scheme \<Rightarrow> 'a gui_scheme option" where
  "input_thread hs [] g = (if bool_gui g then None else Some g)"
| "input_thread hs (env # envs) g =
     (if bool_gui g then input_thread hs envs (input_body hs env g) else Some g)"

subsection \<open>Both loops, and start\<close>

text \<open>
  The two threads of \<^verbatim>\<open>GUI.start\<close> run on the same object. A schedule names, step by
  step, the thread that runs its next loop iteration, with what the iteration takes from
  outside; \<open>Main_interrupt\<close> is a \<^verbatim>\<open>KeyboardInterrupt\<close> in the thread that waits in
  \<^verbatim>\<open>join\<close>. An iteration runs as a whole, from the test of the object to the end of the
  loop body: the schedules are the interleavings of whole iterations, and an iteration that
  is interrupted by the other thread is not represented. Once the object is false each
  loop leaves at its next test, so the threads have ended.
\<close>

datatype event =
    Render_iteration "(int \<times> int) \<times> string"
  | Input_iteration "(exn + int) \<times> string"
  | Main_interrupt string

fun step :: "'a hooks \<Rightarrow> event \<Rightarrow> 'a gui_scheme \<Rightarrow> 'a gui_scheme" where
  "step hs (Render_iteration env) g = render_body hs env g"
| "step hs (Input_iteration env) g = input_body hs env g"
| "step hs (Main_interrupt now) g = gui_log (stop g) now [''GUI ended by keyboard interrupt'']"

fun threads :: "'a hooks \<Rightarrow> event list \<Rightarrow> 'a gui_scheme \<Rightarrow> 'a gui_scheme option" where
  "threads hs [] g = (if bool_gui g then None else Some g)"
| "threads hs (ev # evs) g = (if bool_gui g then threads hs evs (step hs ev g) else Some g)"



text \<open>
  \<^verbatim>\<open>GUI.start\<close>, called once: the log file is emptied, the start is logged, \<^verbatim>\<open>setup\<close>
  runs, the threads run, the end is logged. An exception of \<^verbatim>\<open>setup\<close> leaves
  \<^verbatim>\<open>start\<close>. \<open>None\<close> says that the threads are still running when the schedule is used
  up.
\<close>

definition start ::
  "'a hooks \<Rightarrow> string \<Rightarrow> event list \<Rightarrow> string \<Rightarrow> 'a gui_scheme \<Rightarrow> 'a outcome option" where
  "start hs now_start schedule now_end g =
     (case setup_hook hs (gui_log (g\<lparr>log_file := []\<rparr>) now_start [''GUI start'']) of
        (Some e, g') \<Rightarrow> Some (Some e, g')
      | (None, g') \<Rightarrow>
          (case threads hs schedule g' of
             None \<Rightarrow> None
           | Some g'' \<Rightarrow> Some (None, gui_log g'' now_end [''GUI end''])))"

subsection \<open>Two applications\<close>

text \<open>
  Two \<^verbatim>\<open>keypress\<close> overrides used as concrete inputs below: one draws a character at the
  bottom left cell for any key, one raises \<^verbatim>\<open>EOFError("boom")\<close> for any key.
\<close>

definition echo_key :: "int \<Rightarrow> action list" where
  "echo_key key = [Draw (0, 0) ''k'' A_NORMAL]"


section \<open>Properties\<close>

lemmas direction_defs =
  LEFT_def UP_LEFT_def UP_def UP_RIGHT_def RIGHT_def DOWN_RIGHT_def DOWN_def DOWN_LEFT_def

lemmas origin_defs =
  TOP_LEFT_def TOP_CENTER_def TOP_RIGHT_def CENTER_LEFT_def CENTER_def CENTER_RIGHT_def
  BOTTOM_LEFT_def BOTTOM_CENTER_def BOTTOM_RIGHT_def

subsection \<open>Auxiliary facts\<close>

lemma concat_map_if_notin:
  "j \<notin> set ys \<Longrightarrow> concat (map (\<lambda>y. if y = j then f y else []) ys) = []"
  by (induction ys) auto

lemma concat_map_if_upto:
  "concat (map (\<lambda>y. if y = j then f y else []) [i..k]) = (if i \<le> j \<and> j \<le> k then f j else [])"
proof (cases "i \<le> j \<and> j \<le> k")
  case True
  then have "[i..k] = [i..j - 1] @ j # [j + 1..k]"
    by (simp add: upto_split3)
  then show ?thesis
    using True by (simp add: concat_map_if_notin)
next
  case False
  then have "j \<notin> set [i..k]" by auto
  then have "concat (map (\<lambda>y. if y = j then f y else []) [i..k]) = []"
    by (rule concat_map_if_notin)
  with False show ?thesis by auto
qed

lemma filter_row:
  "filter (\<lambda>call. fst call = r \<and> fst (snd call) = c) (map (\<lambda>x. (y, x, f x)) xs) =
     (if y = r then concat (map (\<lambda>x. if x = c then [(y, c, f c)] else []) xs) else [])"
  by (induction xs) auto

lemma emitted_at_flush_cells:
  "emitted_at (flush_cells h w px) (r, c) =
     (if 0 \<le> r \<and> r < h \<and> 0 \<le> c \<and> c < w
      then [case px (r, c) of None \<Rightarrow> BLANK_PIXEL | Some p \<Rightarrow> p] else [])"
proof -
  let ?f = "\<lambda>y x. case px (y, x) of None \<Rightarrow> BLANK_PIXEL | Some p \<Rightarrow> p"
  let ?row = "concat (map (\<lambda>x. if x = c then [(r, c, ?f r c)] else []) [0..w - 1])"
  have "filter (\<lambda>call. (fst call, fst (snd call)) = (r, c)) (flush_cells h w px) =
          concat (map (\<lambda>y. if y = r then ?row else []) [0..h - 1])"
    by (simp add: flush_cells_def filter_concat comp_def filter_row cong: if_cong)
  also have "\<dots> = (if 0 \<le> r \<and> r \<le> h - 1 then ?row else [])"
    by (rule concat_map_if_upto)
  also have "?row = (if 0 \<le> c \<and> c \<le> w - 1 then [(r, c, ?f r c)] else [])"
    by (rule concat_map_if_upto)
  finally show ?thesis
    by (simp add: emitted_at_def)
qed

lemma draw_in_bounds:
  assumes "screen_width g = Some w" "screen_height g = Some h"
    and "0 \<le> x" "x < w" "0 \<le> y" "y < h"
  shows "draw g (x, y) character attr =
           (None, g\<lparr>pixels := (pixels g)((h - (y + 1), x) \<mapsto> (character, attr))\<rparr>)"
  using assms by (simp add: draw_def get_screen_width_def get_screen_height_def)

lemma draw_out_of_bounds:
  assumes "screen_width g = Some w" "screen_height g = Some h"
    and "x < 0 \<or> w \<le> x \<or> y < 0 \<or> h \<le> y"
  shows "draw g (x, y) character attr = (None, g)"
  using assms by (auto simp add: draw_def get_screen_width_def get_screen_height_def)

lemma flush_sized:
  assumes "screen_width g = Some w" "screen_height g = Some h"
  shows "flush g = Inr (flush_cells h w (pixels g))"
  using assms by (simp add: flush_def get_screen_width_def get_screen_height_def flush_cells_def)

subsection \<open>Drawing one pixel\<close>

text \<open>
  Claim C1. With the screen dimensions \<open>w\<close> and \<open>h\<close> of the current tick and a logical
  coordinate \<open>(x, y)\<close> with \<open>0 \<le> x < w\<close> and \<open>0 \<le> y < h\<close>, \<^verbatim>\<open>draw\<close> raises nothing and
  stores \<open>(character, attr)\<close> under the device key \<open>(h - (y + 1), x)\<close>; the flush of the
  object so obtained makes exactly one \<^verbatim>\<open>addstr\<close> call at that device cell, with that
  character and attribute.
\<close>

theorem draw_in_bounds_stored_and_flushed:
  assumes "screen_width g = Some w" and "screen_height g = Some h"
    and "0 \<le> x" and "x < w" and "0 \<le> y" and "y < h"
  shows "\<exists>g' calls. draw g (x, y) character attr = (None, g')
           \<and> pixels g' (h - (y + 1), x) = Some (character, attr)
           \<and> flush g' = Inr calls
           \<and> emitted_at calls (h - (y + 1), x) = [(character, attr)]"
proof -
  let ?g' = "g\<lparr>pixels := (pixels g)((h - (y + 1), x) \<mapsto> (character, attr))\<rparr>"
  have d: "draw g (x, y) character attr = (None, ?g')"
    using assms by (rule draw_in_bounds)
  have f: "flush ?g' = Inr (flush_cells h w (pixels ?g'))"
    using assms(1,2) by (simp add: flush_sized)
  have e: "emitted_at (flush_cells h w (pixels ?g')) (h - (y + 1), x) = [(character, attr)]"
    using assms(3-6) by (simp add: emitted_at_flush_cells)
  from d f e show ?thesis by auto
qed

theorem draw_in_bounds_stored_and_flushed_witness:
  "\<exists>g' calls. draw (update_window_size (24, 80) (init ())) (3, 5) ''#'' 7 = (None, g')
      \<and> pixels g' (18, 3) = Some (''#'', 7)
      \<and> flush g' = Inr calls
      \<and> emitted_at calls (18, 3) = [(''#'', 7)]"
  using draw_in_bounds_stored_and_flushed
    [of "update_window_size (24, 80) (init ())" 80 24 3 5 "''#''" 7]
  by (simp add: update_window_size_def)

text \<open>
  Claim C3. With the screen dimensions \<open>w\<close> and \<open>h\<close> of the current tick and a logical
  coordinate \<open>(x, y)\<close> with \<open>x < 0\<close> or \<open>x \<ge> w\<close> or \<open>y < 0\<close> or \<open>y \<ge> h\<close>, \<^verbatim>\<open>draw\<close> raises
  nothing and returns the object as it was: the pixel buffer is unchanged and so is what a
  flush emits.
\<close>

theorem draw_out_of_bounds_noop:
  assumes "screen_width g = Some w" and "screen_height g = Some h"
    and "x < 0 \<or> x \<ge> w \<or> y < 0 \<or> y \<ge> h"
  shows "draw g (x, y) character attr = (None, g)
           \<and> pixels (snd (draw g (x, y) character attr)) = pixels g
           \<and> flush (snd (draw g (x, y) character attr)) = flush g"
proof -
  have "draw g (x, y) character attr = (None, g)"
    using assms by (intro draw_out_of_bounds) auto
  then show ?thesis by simp
qed

theorem draw_out_of_bounds_noop_witness:
  "draw (update_window_size (24, 80) (init ())) (80, 5) ''#'' 7
     = (None, update_window_size (24, 80) (init ()))
   \<and> draw (update_window_size (24, 80) (init ())) (3, -1) ''#'' 7
     = (None, update_window_size (24, 80) (init ()))"
  using draw_out_of_bounds_noop [of "update_window_size (24, 80) (init ())" 80 24 80 5 "''#''" 7]
    draw_out_of_bounds_noop [of "update_window_size (24, 80) (init ())" 80 24 3 "-1" "''#''" 7]
  by (simp add: update_window_size_def)

text \<open>
  Claim C10. An in-bounds \<^verbatim>\<open>draw\<close> changes the binding of no key of the pixel buffer
  other than \<open>(h - (y + 1), x)\<close>, and every key bound before is bound after.
\<close>

theorem draw_frame:
  assumes "screen_width g = Some w" and "screen_height g = Some h"
    and "0 \<le> x" and "x < w" and "0 \<le> y" and "y < h"
  shows "\<exists>g'. draw g (x, y) character attr = (None, g')
           \<and> (\<forall>key. key \<noteq> (h - (y + 1), x) \<longrightarrow> pixels g' key = pixels g key)
           \<and> dom (pixels g) \<subseteq> dom (pixels g')"
proof -
  let ?g' = "g\<lparr>pixels := (pixels g)((h - (y + 1), x) \<mapsto> (character, attr))\<rparr>"
  have "draw g (x, y) character attr = (None, ?g')"
    using assms by (rule draw_in_bounds)
  moreover have "\<forall>key. key \<noteq> (h - (y + 1), x) \<longrightarrow> pixels ?g' key = pixels g key"
    by simp
  moreover have "dom (pixels g) \<subseteq> dom (pixels ?g')"
    by auto
  ultimately show ?thesis by blast
qed

theorem draw_frame_witness:
  "\<exists>g'. draw ((update_window_size (24, 80) (init ()))\<lparr>pixels := [(23, 0) \<mapsto> (''a'', 1)]\<rparr>)
              (3, 5) ''#'' 7 = (None, g')
      \<and> pixels g' (23, 0) = Some (''a'', 1)
      \<and> pixels g' (0, 0) = None"
  using draw_frame
    [of "(update_window_size (24, 80) (init ()))\<lparr>pixels := [(23, 0) \<mapsto> (''a'', 1)]\<rparr>"
        80 24 3 5 "''#''" 7]
  by (auto simp add: update_window_size_def)

text \<open>
  Claim C8. When two in-bounds \<^verbatim>\<open>draw\<close> calls, one after the other, resolve to the same
  device cell, the buffer holds the pair of the later call at that cell, the flush makes
  exactly one \<^verbatim>\<open>addstr\<close> call there with that pair, and the object is the one the later
  call alone would have produced.
\<close>

theorem draw_same_cell_later_wins:
  assumes "screen_width g = Some w" and "screen_height g = Some h"
    and "0 \<le> x1" and "x1 < w" and "0 \<le> y1" and "y1 < h"
    and "0 \<le> x2" and "x2 < w" and "0 \<le> y2" and "y2 < h"
    and "(h - (y1 + 1), x1) = (h - (y2 + 1), x2)"
  shows "\<exists>g1 g2 calls. draw g (x1, y1) character1 attr1 = (None, g1)
           \<and> draw g1 (x2, y2) character2 attr2 = (None, g2)
           \<and> pixels g2 (h - (y1 + 1), x1) = Some (character2, attr2)
           \<and> flush g2 = Inr calls
           \<and> emitted_at calls (h - (y1 + 1), x1) = [(character2, attr2)]
           \<and> draw g (x2, y2) character2 attr2 = (None, g2)"
proof -
  let ?cell = "(h - (y1 + 1), x1)"
  let ?g1 = "g\<lparr>pixels := (pixels g)(?cell \<mapsto> (character1, attr1))\<rparr>"
  let ?g2 = "g\<lparr>pixels := (pixels g)(?cell \<mapsto> (character2, attr2))\<rparr>"
  have same: "x2 = x1" "y2 = y1" using assms(11) by auto
  have d1: "draw g (x1, y1) character1 attr1 = (None, ?g1)"
    using assms(1-6) by (rule draw_in_bounds)
  have "draw ?g1 (x1, y1) character2 attr2 =
          (None, ?g1\<lparr>pixels := (pixels ?g1)(?cell \<mapsto> (character2, attr2))\<rparr>)"
    using assms(1-6) by (intro draw_in_bounds) simp_all
  then have d2: "draw ?g1 (x2, y2) character2 attr2 = (None, ?g2)"
    by (simp add: same)
  have d3: "draw g (x2, y2) character2 attr2 = (None, ?g2)"
    unfolding same using assms(1-6) by (rule draw_in_bounds)
  have f: "flush ?g2 = Inr (flush_cells h w (pixels ?g2))"
    using assms(1,2) by (simp add: flush_sized)
  have e: "emitted_at (flush_cells h w (pixels ?g2)) ?cell = [(character2, attr2)]"
    using assms(3-6) by (simp add: emitted_at_flush_cells)
  have p: "pixels ?g2 ?cell = Some (character2, attr2)" by simp
  from d1 d2 d3 f e p show ?thesis by blast
qed

theorem draw_same_cell_later_wins_witness:
  "\<exists>g1 g2 calls. draw (update_window_size (24, 80) (init ())) (3, 5) ''a'' 1 = (None, g1)
      \<and> draw g1 (3, 5) ''b'' 2 = (None, g2)
      \<and> pixels g2 (18, 3) = Some (''b'', 2)
      \<and> flush g2 = Inr calls
      \<and> emitted_at calls (18, 3) = [(''b'', 2)]"
  using draw_same_cell_later_wins
    [of "update_window_size (24, 80) (init ())" 80 24 3 5 3 5 "''a''" 1 "''b''" 2]
  by (simp add: update_window_size_def) blast

subsection \<open>Origins and directions\<close>

lemma shift_is_floor: "drop_bit (Suc 0) (n::int) = \<lfloor>real_of_int n / 2\<rfloor>"
proof -
  have "\<lfloor>real_of_int n / real_of_int 2\<rfloor> = n div 2"
    by (rule floor_divide_of_int_eq)
  then show ?thesis by (simp add: drop_bit_eq_div)
qed

text \<open>
  Claim C4. With screen dimensions \<open>w\<close> and \<open>h\<close>, each of the nine anchors resolves to its
  closed form: \<open>0\<close>, \<open>\<lfloor>w / 2\<rfloor>\<close> or \<open>w - 1\<close> for the left, centre and right columns, and
  \<open>0\<close>, \<open>\<lfloor>h / 2\<rfloor>\<close> or \<open>h - 1\<close> for the bottom, centre and top rows; on an 80 by 24 screen
  \<open>CENTER\<close> is \<open>(40, 12)\<close>. The closed forms hold for all integers \<open>w\<close> and \<open>h\<close>, the
  positive ones among them.
\<close>

theorem get_origin_reference_closed_form:
  assumes "screen_width g = Some w" and "screen_height g = Some h"
  shows "get_origin_reference g TOP_LEFT = Inr (0, h - 1)
       \<and> get_origin_reference g TOP_CENTER = Inr (\<lfloor>real_of_int w / 2\<rfloor>, h - 1)
       \<and> get_origin_reference g TOP_RIGHT = Inr (w - 1, h - 1)
       \<and> get_origin_reference g CENTER_LEFT = Inr (0, \<lfloor>real_of_int h / 2\<rfloor>)
       \<and> get_origin_reference g CENTER = Inr (\<lfloor>real_of_int w / 2\<rfloor>, \<lfloor>real_of_int h / 2\<rfloor>)
       \<and> get_origin_reference g CENTER_RIGHT = Inr (w - 1, \<lfloor>real_of_int h / 2\<rfloor>)
       \<and> get_origin_reference g BOTTOM_LEFT = Inr (0, 0)
       \<and> get_origin_reference g BOTTOM_CENTER = Inr (\<lfloor>real_of_int w / 2\<rfloor>, 0)
       \<and> get_origin_reference g BOTTOM_RIGHT = Inr (w - 1, 0)
       \<and> (w = 80 \<and> h = 24 \<longrightarrow> get_origin_reference g CENTER = Inr (40, 12))"
proof -
  have wh: "width_half g = Inr \<lfloor>real_of_int w / 2\<rfloor>"
    using assms(1) by (simp add: width_half_def get_screen_width_def shift_is_floor)
  have wl: "width_last g = Inr (w - 1)"
    using assms(1) by (simp add: width_last_def get_screen_width_def)
  have hh: "height_half g = Inr \<lfloor>real_of_int h / 2\<rfloor>"
    using assms(2) by (simp add: height_half_def get_screen_height_def shift_is_floor)
  have hl: "height_last g = Inr (h - 1)"
    using assms(2) by (simp add: height_last_def get_screen_height_def)
  show ?thesis
    by (simp add: get_origin_reference_def origin_defs pair_of_def wh wl hh hl)
qed

theorem get_origin_reference_closed_form_witness:
  "get_origin_reference (update_window_size (24, 80) (init ())) CENTER = Inr (40, 12)
   \<and> get_origin_reference (update_window_size (24, 80) (init ())) TOP_RIGHT = Inr (79, 23)
   \<and> get_origin_reference (update_window_size (25, 81) (init ())) CENTER = Inr (40, 12)"
  using get_origin_reference_closed_form [of "update_window_size (24, 80) (init ())" 80 24]
    get_origin_reference_closed_form [of "update_window_size (25, 81) (init ())" 81 25]
  by (simp add: update_window_size_def)

text \<open>
  Claim C6. For a direction that is none of the eight identifiers
  \<^verbatim>\<open>get_directional_reference\<close> raises \<^verbatim>\<open>ValueError\<close>, and for an origin that is none of
  the nine identifiers \<^verbatim>\<open>get_origin_reference\<close> raises \<^verbatim>\<open>ValueError\<close>, whatever the
  object; a vector or an offset is returned for an enumerated identifier only.
\<close>

theorem unknown_identifier_raises:
  shows "(direction \<notin> {LEFT, UP_LEFT, UP, UP_RIGHT, RIGHT, DOWN_RIGHT, DOWN, DOWN_LEFT} \<longrightarrow>
            get_directional_reference direction =
              Inl (Exn ValueError (''Unknown direction '' @ quote @ str_int direction @ quote)))
       \<and> (origin \<notin> {TOP_LEFT, TOP_CENTER, TOP_RIGHT, CENTER_LEFT, CENTER, CENTER_RIGHT,
                      BOTTOM_LEFT, BOTTOM_CENTER, BOTTOM_RIGHT} \<longrightarrow>
            get_origin_reference g origin =
              Inl (Exn ValueError (''Unknown origin '' @ quote @ str_int origin @ quote)))
       \<and> ((\<exists>v. get_directional_reference direction = Inr v) \<longrightarrow>
            direction \<in> {LEFT, UP_LEFT, UP, UP_RIGHT, RIGHT, DOWN_RIGHT, DOWN, DOWN_LEFT})
       \<and> ((\<exists>v. get_origin_reference g origin = Inr v) \<longrightarrow>
            origin \<in> {TOP_LEFT, TOP_CENTER, TOP_RIGHT, CENTER_LEFT, CENTER, CENTER_RIGHT,
                      BOTTOM_LEFT, BOTTOM_CENTER, BOTTOM_RIGHT})"
  by (auto simp add: get_directional_reference_def get_origin_reference_def)

theorem unknown_identifier_raises_witness:
  "get_directional_reference 8 =
        Inl (Exn ValueError (''Unknown direction '' @ quote @ ''8'' @ quote))
   \<and> get_directional_reference (-1) =
        Inl (Exn ValueError (''Unknown direction '' @ quote @ ''-1'' @ quote))
   \<and> get_origin_reference (update_window_size (24, 80) (init ())) 17 =
        Inl (Exn ValueError (''Unknown origin '' @ quote @ ''17'' @ quote))
   \<and> get_origin_reference (init ()) 4 =
        Inl (Exn ValueError (''Unknown origin '' @ quote @ ''4'' @ quote))"
  using unknown_identifier_raises [of 8 17 "update_window_size (24, 80) (init ())"]
    unknown_identifier_raises [of "-1" 4 "init ()"]
  by (simp add: direction_defs origin_defs str_int_def)

subsection \<open>Drawing a string\<close>

lemma draw_sized:
  assumes "screen_width g = Some w" "screen_height g = Some h"
  shows "draw g (x, y) character attr =
           (None, if 0 \<le> x \<and> x < w \<and> 0 \<le> y \<and> y < h
                  then g\<lparr>pixels := (pixels g)((h - (y + 1), x) \<mapsto> (character, attr))\<rparr>
                  else g)"
  using assms by (simp add: draw_def get_screen_width_def get_screen_height_def)

lemma draw_loop:
  fixes px py :: "nat \<Rightarrow> int"
  assumes "screen_width g = Some w" and "screen_height g = Some h"
    and inj: "\<And>i j. px i = px j \<Longrightarrow> py i = py j \<Longrightarrow> i = j"
  shows "\<exists>g'. for_each (\<lambda>(i, c) g'. draw g' (px i, py i) [c] attr) (enumerate n s) g = (None, g')
           \<and> g' = g\<lparr>pixels := pixels g'\<rparr>
           \<and> (\<forall>i<length s. 0 \<le> px (n + i) \<and> px (n + i) < w \<and> 0 \<le> py (n + i) \<and> py (n + i) < h
                  \<longrightarrow> pixels g' (h - (py (n + i) + 1), px (n + i)) = Some ([s ! i], attr))
           \<and> (\<forall>cell. (\<forall>i<length s. 0 \<le> px (n + i) \<and> px (n + i) < w
                               \<and> 0 \<le> py (n + i) \<and> py (n + i) < h
                               \<longrightarrow> cell \<noteq> (h - (py (n + i) + 1), px (n + i)))
                  \<longrightarrow> pixels g' cell = pixels g cell)"
  using assms(1,2)
proof (induction s arbitrary: n g)
  case Nil
  then show ?case by simp
next
  case (Cons c cs)
  let ?inb = "\<lambda>k. 0 \<le> px k \<and> px k < w \<and> 0 \<le> py k \<and> py k < h"
  let ?dev = "\<lambda>k. (h - (py k + 1), px k)"
  let ?g1 = "if ?inb n then g\<lparr>pixels := (pixels g)(?dev n \<mapsto> ([c], attr))\<rparr> else g"
  have d: "draw g (px n, py n) [c] attr = (None, ?g1)"
    using Cons.prems by (rule draw_sized)
  have dims1: "screen_width ?g1 = Some w" "screen_height ?g1 = Some h"
    using Cons.prems by simp_all
  from Cons.IH [OF dims1, of "Suc n"] obtain g' where
    run: "for_each (\<lambda>(i, c) g'. draw g' (px i, py i) [c] attr) (enumerate (Suc n) cs) ?g1
            = (None, g')"
    and rest: "g' = ?g1\<lparr>pixels := pixels g'\<rparr>"
    and hit: "\<And>i. i < length cs \<Longrightarrow> ?inb (Suc n + i) \<Longrightarrow>
                pixels g' (?dev (Suc n + i)) = Some ([cs ! i], attr)"
    and miss: "\<And>cell. (\<forall>i<length cs. ?inb (Suc n + i) \<longrightarrow> cell \<noteq> ?dev (Suc n + i)) \<Longrightarrow>
                pixels g' cell = pixels ?g1 cell"
    by blast
  have 1: "for_each (\<lambda>(i, c) g'. draw g' (px i, py i) [c] attr) (enumerate n (c # cs)) g
             = (None, g')"
    using d run by simp
  have 2: "g' = g\<lparr>pixels := pixels g'\<rparr>"
  proof (cases "?inb n")
    case True
    with rest have "g' = (g\<lparr>pixels := (pixels g)(?dev n \<mapsto> ([c], attr))\<rparr>)\<lparr>pixels := pixels g'\<rparr>"
      by simp
    then show ?thesis by simp
  next
    case False
    with rest show ?thesis by simp
  qed
  have 3: "pixels g' (?dev (n + i)) = Some ([(c # cs) ! i], attr)"
    if "i < length (c # cs)" and "?inb (n + i)" for i
  proof (cases i)
    case 0
    have "\<forall>j<length cs. ?inb (Suc n + j) \<longrightarrow> ?dev n \<noteq> ?dev (Suc n + j)"
    proof (intro allI impI notI)
      fix j assume "?dev n = ?dev (Suc n + j)"
      then have "px n = px (Suc n + j)" "py n = py (Suc n + j)" by simp_all
      then have "n = Suc n + j" by (rule inj)
      then show False by simp
    qed
    then have "pixels g' (?dev n) = pixels ?g1 (?dev n)" by (rule miss)
    with that 0 show ?thesis by simp
  next
    case (Suc j)
    with that have "j < length cs" "?inb (Suc n + j)" by simp_all
    then have "pixels g' (?dev (Suc n + j)) = Some ([cs ! j], attr)" by (rule hit)
    with Suc show ?thesis by simp
  qed
  have 4: "pixels g' cell = pixels g cell"
    if "\<forall>i<length (c # cs). ?inb (n + i) \<longrightarrow> cell \<noteq> ?dev (n + i)" for cell
  proof -
    have "\<forall>j<length cs. ?inb (Suc n + j) \<longrightarrow> cell \<noteq> ?dev (Suc n + j)"
    proof (intro allI impI)
      fix j assume "j < length cs" "?inb (Suc n + j)"
      with that [rule_format, of "Suc j"] show "cell \<noteq> ?dev (Suc n + j)" by simp
    qed
    then have "pixels g' cell = pixels ?g1 cell" by (rule miss)
    moreover have "pixels ?g1 cell = pixels g cell"
      using that [rule_format, of 0] by simp
    ultimately show ?thesis by simp
  qed
  from 1 2 3 4 show ?case by blast
qed


lemma direction_step_nonzero:
  assumes "get_directional_reference direction = Inr (dx, dy)"
  shows "dx \<noteq> 0 \<or> dy \<noteq> 0"
  using assms by (auto simp add: get_directional_reference_def split: if_splits)

lemma direction_positions_distinct:
  assumes "dx \<noteq> 0 \<or> dy \<noteq> (0::int)"
    and "ox + (x + dx * int i) = ox + (x + dx * int j)"
    and "oy + (y + dy * int i) = oy + (y + dy * int j)"
  shows "i = j"
  using assms by auto

lemma draw_string_general:
  assumes "screen_width g = Some w" and "screen_height g = Some h"
    and "get_directional_reference direction = Inr (dx, dy)"
    and "get_origin_reference g origin = Inr (ox, oy)"
  shows "\<exists>g'. draw_string g (x, y) s attr direction origin = (None, g')
           \<and> g' = g\<lparr>pixels := pixels g'\<rparr>
           \<and> (\<forall>i<length s.
                  0 \<le> ox + (x + dx * int i) \<and> ox + (x + dx * int i) < w
                  \<and> 0 \<le> oy + (y + dy * int i) \<and> oy + (y + dy * int i) < h
                  \<longrightarrow> pixels g' (h - (oy + (y + dy * int i) + 1), ox + (x + dx * int i))
                        = Some ([s ! i], attr))
           \<and> (\<forall>cell.
                  (\<forall>i<length s.
                     0 \<le> ox + (x + dx * int i) \<and> ox + (x + dx * int i) < w
                     \<and> 0 \<le> oy + (y + dy * int i) \<and> oy + (y + dy * int i) < h
                     \<longrightarrow> cell \<noteq> (h - (oy + (y + dy * int i) + 1), ox + (x + dx * int i)))
                  \<longrightarrow> pixels g' cell = pixels g cell)"
proof -
  have step: "dx \<noteq> 0 \<or> dy \<noteq> 0"
    using assms(3) by (rule direction_step_nonzero)
  have inj: "i = j"
    if "ox + (x + dx * int i) = ox + (x + dx * int j)"
      and "oy + (y + dy * int i) = oy + (y + dy * int j)" for i j
    using step that by (rule direction_positions_distinct)
  have unfold: "draw_string g (x, y) s attr direction origin =
      for_each (\<lambda>(i, c) g'. draw g' (ox + (x + dx * int i), oy + (y + dy * int i)) [c] attr)
        (enumerate 0 s) g"
    using assms(3,4) by (simp add: draw_string_def)
  from draw_loop [of g w h "\<lambda>i. ox + (x + dx * int i)" "\<lambda>i. oy + (y + dy * int i)" attr 0 s,
      OF assms(1,2) inj]
  show ?thesis
    unfolding unfold by simp
qed

lemma draw_string_hi:
  "\<exists>g'. draw_string (update_window_size (24, 80) (init ())) (0, 0) ''HI'' A_NORMAL RIGHT BOTTOM_LEFT
            = (None, g')
      \<and> pixels g' (23, 0) = Some (''H'', A_NORMAL)
      \<and> pixels g' (23, 1) = Some (''I'', A_NORMAL)
      \<and> (\<forall>cell. cell \<noteq> (23, 0) \<and> cell \<noteq> (23, 1) \<longrightarrow> pixels g' cell = None)"
proof -
  let ?g = "update_window_size (24, 80) (init ())"
  have 1: "screen_width ?g = Some 80" and 2: "screen_height ?g = Some 24"
    by (simp_all add: update_window_size_def)
  have 3: "get_directional_reference RIGHT = Inr (1, 0)"
    by (simp add: get_directional_reference_def direction_defs)
  have 4: "get_origin_reference ?g BOTTOM_LEFT = Inr (0, 0)"
    by (simp add: get_origin_reference_def origin_defs pair_of_def)
  from draw_string_general [OF 1 2 3 4, of 0 0 "''HI''" A_NORMAL]
  obtain g' where d: "draw_string ?g (0, 0) ''HI'' A_NORMAL RIGHT BOTTOM_LEFT = (None, g')"
    and hit: "\<forall>i<length ''HI''.
                  0 \<le> 0 + (0 + 1 * int i) \<and> 0 + (0 + 1 * int i) < 80
                  \<and> 0 \<le> 0 + (0 + 0 * int i) \<and> 0 + (0 + 0 * int i) < (24::int)
                  \<longrightarrow> pixels g' (24 - (0 + (0 + 0 * int i) + 1), 0 + (0 + 1 * int i))
                        = Some ([''HI'' ! i], A_NORMAL)"
    and miss: "\<forall>cell.
                  (\<forall>i<length ''HI''.
                     0 \<le> 0 + (0 + 1 * int i) \<and> 0 + (0 + 1 * int i) < 80
                     \<and> 0 \<le> 0 + (0 + 0 * int i) \<and> 0 + (0 + 0 * int i) < (24::int)
                     \<longrightarrow> cell \<noteq> (24 - (0 + (0 + 0 * int i) + 1), 0 + (0 + 1 * int i)))
                  \<longrightarrow> pixels g' cell = pixels ?g cell"
    by blast
  from hit [rule_format, of 0] have h0: "pixels g' (23, 0) = Some (''H'', A_NORMAL)" by simp
  from hit [rule_format, of 1] have h1: "pixels g' (23, 1) = Some (''I'', A_NORMAL)" by simp
  have m: "pixels g' cell = None" if "cell \<noteq> (23, 0) \<and> cell \<noteq> (23, 1)" for cell
  proof -
    have "\<forall>i<length ''HI''.
                     0 \<le> 0 + (0 + 1 * int i) \<and> 0 + (0 + 1 * int i) < 80
                     \<and> 0 \<le> 0 + (0 + 0 * int i) \<and> 0 + (0 + 0 * int i) < (24::int)
                     \<longrightarrow> cell \<noteq> (24 - (0 + (0 + 0 * int i) + 1), 0 + (0 + 1 * int i))"
      using that by (auto simp add: less_Suc_eq)
    with miss have "pixels g' cell = pixels ?g cell" by blast
    then show ?thesis by (simp add: update_window_size_def init_def)
  qed
  from d h0 h1 m show ?thesis by blast
qed

text \<open>
  Claim C2. With the screen dimensions \<open>w\<close> and \<open>h\<close> of the current tick, a direction that
  resolves to the step \<open>(dx, dy)\<close> and an origin that resolves to the offset \<open>(ox, oy)\<close>,
  \<^verbatim>\<open>draw_string\<close> raises nothing and changes the pixel buffer only: for each index \<open>i\<close>
  of the string whose logical coordinate \<open>(ox + x + dx * i, oy + y + dy * i)\<close> is in bounds,
  the buffer holds character \<open>i\<close> with the given attribute at the device cell of that
  coordinate, and every device cell that is not the cell of an in-bounds character keeps its
  binding, so a character out of bounds writes nothing. On an 80 by 24 screen, \<^verbatim>\<open>"HI"\<close>
  drawn from \<open>(0, 0)\<close> to the right from the bottom left puts \<open>H\<close> at device cell
  \<open>(23, 0)\<close>, \<open>I\<close> at \<open>(23, 1)\<close> and nothing elsewhere.
\<close>

theorem draw_string_cells:
  assumes "screen_width g = Some w" and "screen_height g = Some h"
    and "get_directional_reference direction = Inr (dx, dy)"
    and "get_origin_reference g origin = Inr (ox, oy)"
  shows "(\<exists>g'. draw_string g (x, y) s attr direction origin = (None, g')
           \<and> g' = g\<lparr>pixels := pixels g'\<rparr>
           \<and> (\<forall>i<length s.
                  0 \<le> ox + (x + dx * int i) \<and> ox + (x + dx * int i) < w
                  \<and> 0 \<le> oy + (y + dy * int i) \<and> oy + (y + dy * int i) < h
                  \<longrightarrow> pixels g' (h - (oy + (y + dy * int i) + 1), ox + (x + dx * int i))
                        = Some ([s ! i], attr))
           \<and> (\<forall>cell.
                  (\<forall>i<length s.
                     0 \<le> ox + (x + dx * int i) \<and> ox + (x + dx * int i) < w
                     \<and> 0 \<le> oy + (y + dy * int i) \<and> oy + (y + dy * int i) < h
                     \<longrightarrow> cell \<noteq> (h - (oy + (y + dy * int i) + 1), ox + (x + dx * int i)))
                  \<longrightarrow> pixels g' cell = pixels g cell))
           \<and> (\<exists>g'. draw_string (update_window_size (24, 80) (init ())) (0, 0) ''HI'' A_NORMAL RIGHT
                     BOTTOM_LEFT = (None, g')
                 \<and> pixels g' (23, 0) = Some (''H'', A_NORMAL)
                 \<and> pixels g' (23, 1) = Some (''I'', A_NORMAL)
                 \<and> (\<forall>cell. cell \<noteq> (23, 0) \<and> cell \<noteq> (23, 1) \<longrightarrow> pixels g' cell = None))"
  using draw_string_general [OF assms] draw_string_hi by (rule conjI)

theorem draw_string_cells_witness:
  "\<exists>g'. draw_string (update_window_size (24, 80) (init ())) (78, 0) ''abcd'' 5 RIGHT BOTTOM_LEFT
            = (None, g')
      \<and> pixels g' (23, 78) = Some (''a'', 5)
      \<and> pixels g' (23, 79) = Some (''b'', 5)
      \<and> (\<forall>cell. cell \<noteq> (23, 78) \<and> cell \<noteq> (23, 79) \<longrightarrow> pixels g' cell = None)"
proof -
  let ?g = "update_window_size (24, 80) (init ())"
  have 1: "screen_width ?g = Some 80" and 2: "screen_height ?g = Some 24"
    by (simp_all add: update_window_size_def)
  have 3: "get_directional_reference RIGHT = Inr (1, 0)"
    by (simp add: get_directional_reference_def direction_defs)
  have 4: "get_origin_reference ?g BOTTOM_LEFT = Inr (0, 0)"
    by (simp add: get_origin_reference_def origin_defs pair_of_def)
  from draw_string_cells [OF 1 2 3 4, of 78 0 "''abcd''" 5]
  obtain g' where d: "draw_string ?g (78, 0) ''abcd'' 5 RIGHT BOTTOM_LEFT = (None, g')"
    and hit: "\<forall>i<length ''abcd''.
                  0 \<le> 0 + (78 + 1 * int i) \<and> 0 + (78 + 1 * int i) < 80
                  \<and> 0 \<le> 0 + (0 + 0 * int i) \<and> 0 + (0 + 0 * int i) < (24::int)
                  \<longrightarrow> pixels g' (24 - (0 + (0 + 0 * int i) + 1), 0 + (78 + 1 * int i))
                        = Some ([''abcd'' ! i], 5)"
    and miss: "\<forall>cell.
                  (\<forall>i<length ''abcd''.
                     0 \<le> 0 + (78 + 1 * int i) \<and> 0 + (78 + 1 * int i) < 80
                     \<and> 0 \<le> 0 + (0 + 0 * int i) \<and> 0 + (0 + 0 * int i) < (24::int)
                     \<longrightarrow> cell \<noteq> (24 - (0 + (0 + 0 * int i) + 1), 0 + (78 + 1 * int i)))
                  \<longrightarrow> pixels g' cell = pixels ?g cell"
    by blast
  from hit [rule_format, of 0] have h0: "pixels g' (23, 78) = Some (''a'', 5)" by simp
  from hit [rule_format, of 1] have h1: "pixels g' (23, 79) = Some (''b'', 5)" by simp
  have m: "pixels g' cell = None" if "cell \<noteq> (23, 78) \<and> cell \<noteq> (23, 79)" for cell
  proof -
    have "\<forall>i<length ''abcd''.
                     0 \<le> 0 + (78 + 1 * int i) \<and> 0 + (78 + 1 * int i) < 80
                     \<and> 0 \<le> 0 + (0 + 0 * int i) \<and> 0 + (0 + 0 * int i) < (24::int)
                     \<longrightarrow> cell \<noteq> (24 - (0 + (0 + 0 * int i) + 1), 0 + (78 + 1 * int i))"
      using that by (auto simp add: less_Suc_eq)
    with miss have "pixels g' cell = pixels ?g cell" by blast
    then show ?thesis by (simp add: update_window_size_def init_def)
  qed
  from d h0 h1 m show ?thesis by blast
qed

subsection \<open>The running flag\<close>

lemma running_draw: "running (snd (draw g coord character attr)) = running g"
  by (cases coord) (simp add: draw_def Let_def split: sum.splits)

lemma running_gui_log: "running (gui_log g now args) = running g"
  by (simp add: gui_log_def)

lemma for_each_invariant:
  assumes "\<And>a g. P g \<Longrightarrow> P (snd (body a g))" and "P g"
  shows "P (snd (for_each body as g))"
  using assms(2)
proof (induction as arbitrary: g)
  case Nil
  then show ?case by simp
next
  case (Cons a as)
  from Cons.prems have step: "P (snd (body a g))" by (rule assms(1))
  show ?case
  proof (cases "body a g")
    case (Pair r g')
    with step have "P g'" by simp
    then have "P (snd (for_each body as g'))" by (rule Cons.IH)
    with Pair \<open>P g'\<close> show ?thesis by (cases r) simp_all
  qed
qed

lemma stopped_draw_string:
  assumes "\<not> running g"
  shows "\<not> running (snd (draw_string g coord string attr direction origin))"
proof -
  have "\<not> running (snd (for_each (\<lambda>(i, character) g'. draw g' (f i) [character] attr) xs g))"
    for f :: "nat \<Rightarrow> int \<times> int" and xs
    using _ assms by (rule for_each_invariant) (simp add: running_draw split: prod.splits)
  then show ?thesis
    using assms by (cases coord) (simp add: draw_string_def split: sum.splits prod.splits)
qed

lemma stopped_perform_action:
  assumes "\<not> running g"
  shows "\<not> running (snd (perform_action a g))"
  using assms
  by (cases a)
    (simp_all add: running_draw stopped_draw_string stop_def running_gui_log split: sum.splits)

lemma stopped_perform:
  assumes "\<not> running g"
  shows "\<not> running (snd (perform actions g))"
  unfolding perform_def using _ assms
  by (rule for_each_invariant) (rule stopped_perform_action)

lemma stopped_and_then:
  assumes "\<not> running (snd r)" and "\<And>g. \<not> running g \<Longrightarrow> \<not> running (snd (f g))"
  shows "\<not> running (snd (and_then r f))"
  using assms by (cases r) (auto simp add: and_then_def split: option.splits)

lemma stopped_render_body:
  assumes pre: "\<And>g. \<not> running g \<Longrightarrow> \<not> running (snd (pre_render hs g))"
    and re: "\<And>g. \<not> running g \<Longrightarrow> \<not> running (snd (render hs g))"
    and post: "\<And>g. \<not> running g \<Longrightarrow> \<not> running (snd (post_render hs g))"
    and "\<not> running g"
  shows "\<not> running (render_body hs env g)"
proof -
  have "\<not> running (update_window_size (fst env) g)"
    using assms(4) by (simp add: update_window_size_def)
  then have "\<not> running (snd (render_hooks hs (update_window_size (fst env) g)))"
    unfolding render_hooks_def by (intro stopped_and_then pre re post)
  then have "\<not> running (snd (render_try hs (fst env) g))"
    unfolding render_try_def
    by (intro stopped_and_then)
      (simp_all add: output_pixels_def zero_pixels_def split: sum.splits)
  then show ?thesis
    by (auto simp add: render_body_def render_except_def running_gui_log stop_def
        split: prod.splits option.splits)
qed

lemma stopped_input_body:
  assumes "\<And>key g. \<not> running g \<Longrightarrow> \<not> running (snd (keypress hs key g))"
    and "\<not> running g"
  shows "\<not> running (input_body hs env g)"
proof (cases "fst env")
  case (Inl e)
  then show ?thesis
    by (simp add: input_body_def input_except_def running_gui_log stop_def)
next
  case (Inr key)
  have "\<not> running (snd (keypress hs key g))"
    using assms(2) by (rule assms(1))
  with Inr assms(2) show ?thesis
    by (auto simp add: input_body_def input_except_def running_gui_log stop_def
        split: prod.splits option.splits)
qed

lemma threads_stopped: "\<not> running g \<Longrightarrow> threads hs evs g = Some g"
  by (cases evs) (simp_all add: bool_gui_def)

lemma render_thread_stopped: "\<not> running g \<Longrightarrow> render_thread hs envs g = Some g"
  by (cases envs) (simp_all add: bool_gui_def)

lemma input_thread_stopped: "\<not> running g \<Longrightarrow> input_thread hs envs g = Some g"
  by (cases envs) (simp_all add: bool_gui_def)

text \<open>
  Claim C9. The running flag is true in a constructed object; \<^verbatim>\<open>stop\<close> makes it false,
  and calling \<^verbatim>\<open>stop\<close> once more, any number of times, gives the object one call gives.
  Once the flag is false it stays false: under every sequence of calls of the public
  methods, under a loop body and a scheduled step whose hooks only call the public methods,
  and under \<^verbatim>\<open>start\<close> with such hooks, which then returns; with the flag false the
  loops, for any hooks, return at once and leave the object as it is.
\<close>

theorem running_flag_single_shot:
  "running (init (m::'a))
   \<and> \<not> running (stop (g::'a gui_scheme))
   \<and> stop (stop g) = stop g
   \<and> (stop ^^ Suc n) g = stop g
   \<and> (\<not> running g \<longrightarrow>
        \<not> running (snd (perform actions g))
      \<and> \<not> running (render_body (api_hooks su pre re post kp) renv g)
      \<and> \<not> running (input_body (api_hooks su pre re post kp) ienv g)
      \<and> \<not> running (step (api_hooks su pre re post kp) ev g)
      \<and> render_thread hs renvs g = Some g
      \<and> input_thread hs ienvs g = Some g
      \<and> threads hs evs g = Some g
      \<and> (\<exists>r g'. start (api_hooks su pre re post kp) now_start evs now_end g = Some (r, g')
                 \<and> \<not> running g'))"
proof -
  let ?hs = "api_hooks su pre re post kp"
  have iter: "(stop ^^ Suc n) g = stop g"
    by (induction n) (simp_all add: stop_def)
  have body_r: "\<not> running (render_body ?hs env g)" if "\<not> running g" for env and g :: "'a gui_scheme"
    using _ _ _ that by (rule stopped_render_body) (simp_all add: api_hooks_def stopped_perform)
  have body_i: "\<not> running (input_body ?hs env g)" if "\<not> running g" for env and g :: "'a gui_scheme"
    using _ that by (rule stopped_input_body) (simp add: api_hooks_def stopped_perform)
  have st: "\<not> running (step ?hs ev g)" if "\<not> running g"
    using that by (cases ev) (simp_all add: body_r body_i running_gui_log stop_def)
  have start: "\<exists>r g'. start ?hs now_start evs now_end g = Some (r, g') \<and> \<not> running g'"
    if "\<not> running g"
  proof -
    let ?g0 = "gui_log (g\<lparr>log_file := []\<rparr>) now_start [''GUI start'']"
    have "\<not> running ?g0" using that by (simp add: running_gui_log)
    then have s: "\<not> running (snd (setup_hook ?hs ?g0))"
      by (simp add: api_hooks_def stopped_perform)
    show ?thesis
    proof (cases "setup_hook ?hs ?g0")
      case (Pair r g')
      with s have "\<not> running g'" by simp
      with Pair show ?thesis
        by (cases r) (simp_all add: start_def threads_stopped running_gui_log)
    qed
  qed
  show ?thesis
    using iter body_r body_i st start
    by (simp add: init_def stop_def stopped_perform render_thread_stopped input_thread_stopped
        threads_stopped del: funpow.simps)
qed

theorem running_flag_single_shot_witness:
  "running (init ())
   \<and> \<not> running (stop (init ()))
   \<and> (stop ^^ Suc 2) (init ()) = stop (init ())
   \<and> \<not> running (snd (perform [Log ''t'' [''x''], Draw (0, 0) ''a'' 0, Stop] (stop (init ()))))
   \<and> \<not> running (render_body (api_hooks [] [Stop] [] [] echo_key) ((2, 3), ''t'') (stop (init ())))
   \<and> threads default_hooks [Render_iteration ((2, 3), ''t'')] (stop (init ())) = Some (stop (init ()))"
proof -
  have stopped: "\<not> running (stop (init ()))"
    by (simp add: stop_def)
  have idem: "stop (stop (init ())) = stop (init ())"
    by (simp add: stop_def)
  from running_flag_single_shot
    [where m = "()" and g = "init ()" and n = 2]
  have a: "running (init ())" "(stop ^^ Suc 2) (init ()) = stop (init ())"
    by blast+
  from running_flag_single_shot
    [where m = "()" and g = "stop (init ())"
       and actions = "[Log ''t'' [''x''], Draw (0, 0) ''a'' 0, Stop]"
       and su = "[]" and pre = "[Stop]" and re = "[]" and post = "[]" and kp = echo_key
       and renv = "((2, 3), ''t'')" and hs = default_hooks
       and evs = "[Render_iteration ((2, 3), ''t'')]"] stopped
  have b: "\<not> running (snd (perform [Log ''t'' [''x''], Draw (0, 0) ''a'' 0, Stop] (stop (init ()))))"
    "\<not> running (render_body (api_hooks [] [Stop] [] [] echo_key) ((2, 3), ''t'') (stop (init ())))"
    "threads default_hooks [Render_iteration ((2, 3), ''t'')] (stop (init ())) = Some (stop (init ()))"
    by blast+
  from a b stopped show ?thesis by blast
qed

subsection \<open>A hook that raises\<close>











subsection \<open>The pixel buffer between ticks\<close>















end
